theory Spec2Isabelle
  imports Complex_Main "HOL-Library.AList" "HOL-Library.Product_Lexorder"
    "HOL-Library.List_Lexorder"
begin

section \<open>Data model: cells, series and data frames\<close>

text \<open>
  The program is one script over a table library. A Python \<^verbatim>\<open>str\<close> is a sequence of
  Unicode code points, so text is a list of code points; \<open>u\<close> turns an ASCII literal into
  such a list. A cell of a table is missing (\<^verbatim>\<open>NaN\<close>, \<^verbatim>\<open>NaT\<close>), a text, a number, a
  truth value, a timestamp or a time difference. Numbers are exact rationals and a
  timestamp is an integer count of nanoseconds on one time line: rounding of floating
  point, time zones and the 64-bit range of the library's timestamps are not modelled.
  A series is a list of cells; a data frame is the ordered list of its named columns.
\<close>

type_synonym ustr = "nat list"

definition u :: "string \<Rightarrow> ustr" where
  "u s = map of_char s"

datatype cell = NA | Str ustr | Num rat | Bool bool | Ts int | Td int

type_synonym series = "cell list"

type_synonym dataframe = "(ustr \<times> series) list"

datatype error = KeyError ustr | AttributeError | TypeError | ValueError

text \<open>
  The library functions whose code is not part of the program are parameters:
  \<^item> \<open>parse_datetime s i\<close> is the timestamp that \<^verbatim>\<open>pd.to_datetime\<close> reads from row \<open>i\<close>
    of the series \<open>s\<close>, \<open>None\<close> when that value does not parse (the library may infer
    one format for the whole series, so the series is an argument);
  \<^item> \<open>py_lower\<close> and \<open>py_strip\<close> are \<^verbatim>\<open>str.lower\<close> and \<^verbatim>\<open>str.strip\<close>;
  \<^item> \<open>argsort\<close> is the library's default sorting algorithm (\<^verbatim>\<open>kind='quicksort'\<close>), which
    returns the positions of its input in ascending order of the values.
\<close>

type_synonym skey = "nat \<times> rat \<times> ustr"

record pylib =
  parse_datetime :: "series \<Rightarrow> nat \<Rightarrow> int option"
  py_lower :: "ustr \<Rightarrow> ustr"
  py_strip :: "ustr \<Rightarrow> ustr"
  argsort :: "skey list \<Rightarrow> nat list"

definition bind_err :: "error + 'a \<Rightarrow> ('a \<Rightarrow> error + 'b) \<Rightarrow> error + 'b" where
  "bind_err m f = (case m of Inl e \<Rightarrow> Inl e | Inr x \<Rightarrow> f x)"

subsection \<open>Column access\<close>

text \<open>\<^verbatim>\<open>df[k]\<close> raises \<^verbatim>\<open>KeyError\<close> when the frame has no column \<open>k\<close>; \<^verbatim>\<open>df[k] = v\<close>
  replaces the column in place or appends it as the last column.\<close>

definition get_col :: "dataframe \<Rightarrow> ustr \<Rightarrow> error + series" where
  "get_col df k = (case map_of df k of None \<Rightarrow> Inl (KeyError k) | Some c \<Rightarrow> Inr c)"

definition set_col :: "dataframe \<Rightarrow> ustr \<Rightarrow> series \<Rightarrow> dataframe" where
  "set_col df k v = AList.update k v df"

definition columns :: "dataframe \<Rightarrow> ustr list" where
  "columns df = map fst df"

definition nrows :: "dataframe \<Rightarrow> nat" where
  "nrows df = (case df of [] \<Rightarrow> 0 | (k, c) # rest \<Rightarrow> length c)"

definition wf_df :: "dataframe \<Rightarrow> bool" where
  "wf_df df = list_all (\<lambda>(k, c). length c = nrows df) df"

subsection \<open>Element-wise operations of the table library\<close>

text \<open>\<^verbatim>\<open>pd.to_datetime(s, errors='coerce')\<close>: one timestamp per row, missing where the
  value does not parse.\<close>

definition to_datetime :: "pylib \<Rightarrow> series \<Rightarrow> series" where
  "to_datetime L s =
     map (\<lambda>i. case parse_datetime L s i of None \<Rightarrow> NA | Some t \<Rightarrow> Ts t) [0..<length s]"

text \<open>Subtraction of two timestamp series, and \<^verbatim>\<open>.dt.days\<close>: the days component of a
  time difference is the floor of the difference divided by one day.\<close>

fun sub_cell :: "cell \<Rightarrow> cell \<Rightarrow> cell" where
  "sub_cell (Ts a) (Ts b) = Td (a - b)"
| "sub_cell x y = NA"

definition series_sub :: "series \<Rightarrow> series \<Rightarrow> series" where
  "series_sub a b = map2 sub_cell a b"

definition ns_per_day :: int where
  "ns_per_day = 86400000000000"

fun days_cell :: "cell \<Rightarrow> cell" where
  "days_cell (Td d) = Num (of_int (d div ns_per_day))"
| "days_cell x = NA"

definition dt_days :: "series \<Rightarrow> series" where
  "dt_days s = map days_cell s"

text \<open>The \<^verbatim>\<open>.str\<close> accessor raises \<^verbatim>\<open>AttributeError\<close> on a series that is not text: a
  column read from a file is text when it is empty or holds at least one text value.
  Its methods map the text values and leave every other value missing.\<close>

fun is_str :: "cell \<Rightarrow> bool" where
  "is_str (Str t) = True"
| "is_str x = False"

definition str_accessor_ok :: "series \<Rightarrow> bool" where
  "str_accessor_ok s = (s = [] \<or> list_ex is_str s)"

fun lower_cell :: "pylib \<Rightarrow> cell \<Rightarrow> cell" where
  "lower_cell L (Str t) = Str (py_lower L t)"
| "lower_cell L x = NA"

definition str_lower :: "pylib \<Rightarrow> series \<Rightarrow> error + series" where
  "str_lower L s = (if str_accessor_ok s then Inr (map (lower_cell L) s) else Inl AttributeError)"

fun starts_with :: "ustr \<Rightarrow> ustr \<Rightarrow> bool" where
  "starts_with [] t = True"
| "starts_with (p # ps) [] = False"
| "starts_with (p # ps) (c # cs) = (p = c \<and> starts_with ps cs)"

fun has_substring :: "ustr \<Rightarrow> ustr \<Rightarrow> bool" where
  "has_substring p [] = (p = [])"
| "has_substring p (c # cs) = (starts_with p (c # cs) \<or> has_substring p cs)"

fun contains_cell :: "ustr \<Rightarrow> cell \<Rightarrow> cell" where
  "contains_cell p (Str t) = Bool (has_substring p t)"
| "contains_cell p x = NA"

definition str_contains :: "ustr \<Rightarrow> series \<Rightarrow> error + series" where
  "str_contains p s =
     (if str_accessor_ok s then Inr (map (contains_cell p) s) else Inl AttributeError)"

text \<open>\<^verbatim>\<open>s.fillna(0)\<close>, and \<^verbatim>\<open>s.where(cond, 0)\<close>: the value is kept where the condition is
  true; a missing condition counts as false.\<close>

fun fillna0_cell :: "cell \<Rightarrow> cell" where
  "fillna0_cell NA = Num 0"
| "fillna0_cell x = x"

definition fillna0 :: "series \<Rightarrow> series" where
  "fillna0 s = map fillna0_cell s"

definition where_cell :: "cell \<Rightarrow> cell \<Rightarrow> cell" where
  "where_cell x c = (if c = Bool True then x else Num 0)"

definition where0 :: "series \<Rightarrow> series \<Rightarrow> series" where
  "where0 s cond = map2 where_cell s cond"

section \<open>Loading and deriving: \<^verbatim>\<open>load_data\<close>\<close>

definition livre :: ustr where
  "livre = u ''livr'' @ [233]"

definition retour :: ustr where
  "retour = u ''retour''"

text \<open>Lines 33 to 39: the schema normaliser.\<close>

definition normalize :: "pylib \<Rightarrow> dataframe \<Rightarrow> error + dataframe" where
  "normalize L df0 =
     bind_err (get_col df0 (u ''date_creation'')) (\<lambda>c1.
     let df1 = set_col df0 (u ''date_creation'') (to_datetime L c1) in
     bind_err (get_col df1 (u ''date_expedition'')) (\<lambda>c2.
     let df2 = set_col df1 (u ''date_expedition'') (to_datetime L c2) in
     bind_err (get_col df2 (u ''date_last_status'')) (\<lambda>c3.
     let df3 = set_col df2 (u ''date_last_status'') (to_datetime L c3) in
     if u ''Date de commande'' \<in> set (columns df3)
     then bind_err (get_col df3 (u ''Date de commande'')) (\<lambda>c4.
            Inr (set_col df3 (u ''date_commande'') (to_datetime L c4)))
     else Inr (set_col df3 (u ''date_commande'') (replicate (nrows df3) NA)))))"

text \<open>A day difference \<^verbatim>\<open>(df[a] - df[b]).dt.days\<close>.\<close>

definition day_diff :: "dataframe \<Rightarrow> ustr \<Rightarrow> ustr \<Rightarrow> error + series" where
  "day_diff df a b =
     bind_err (get_col df a) (\<lambda>x. bind_err (get_col df b) (\<lambda>y. Inr (dt_days (series_sub x y))))"

text \<open>A status flag \<^verbatim>\<open>df['last_status'].str.lower().str.contains(p)\<close>.\<close>

definition status_flag :: "pylib \<Rightarrow> dataframe \<Rightarrow> ustr \<Rightarrow> error + series" where
  "status_flag L df p =
     bind_err (get_col df (u ''last_status'')) (\<lambda>s.
     bind_err (str_lower L s) (\<lambda>l. str_contains p l))"

text \<open>Lines 41 to 51: the feature deriver.\<close>

definition derive :: "pylib \<Rightarrow> dataframe \<Rightarrow> error + dataframe" where
  "derive L df4 =
     bind_err (day_diff df4 (u ''date_creation'') (u ''date_commande'')) (\<lambda>d1.
     let df5 = set_col df4 (u ''commande_to_creation_days'') d1 in
     bind_err (day_diff df5 (u ''date_expedition'') (u ''date_commande'')) (\<lambda>d2.
     let df6 = set_col df5 (u ''commande_to_expedition_days'') d2 in
     bind_err (day_diff df6 (u ''date_last_status'') (u ''date_commande'')) (\<lambda>d3.
     let df7 = set_col df6 (u ''commande_to_last_status_days'') d3 in
     bind_err (status_flag L df7 livre) (\<lambda>f1.
     let df8 = set_col df7 (u ''delivered'') f1 in
     bind_err (status_flag L df8 retour) (\<lambda>f2.
     let df9 = set_col df8 (u ''returned'') f2 in
     bind_err (day_diff df9 (u ''date_last_status'') (u ''date_expedition'')) (\<lambda>d4.
     let df10 = set_col df9 (u ''delivery_delay_days'') d4 in
     bind_err (day_diff df10 (u ''date_expedition'') (u ''date_creation'')) (\<lambda>d5.
     let df11 = set_col df10 (u ''processing_time_days'') d5 in
     bind_err (get_col df11 (u ''Montant total de la commande'')) (\<lambda>m.
     let df12 = set_col df11 (u ''revenue'') (fillna0 m) in
     bind_err (get_col df12 (u ''revenue'')) (\<lambda>r1.
     bind_err (get_col df12 (u ''returned'')) (\<lambda>b1.
     let df13 = set_col df12 (u ''lost_revenue'') (where0 r1 b1) in
     bind_err (get_col df13 (u ''revenue'')) (\<lambda>r2.
     bind_err (get_col df13 (u ''delivered'')) (\<lambda>b2.
     let df14 = set_col df13 (u ''success_revenue'') (where0 r2 b2) in
     bind_err (get_col df14 (u ''has_recouvrement'')) (\<lambda>h.
     Inr (set_col df14 (u ''has_recouvrement'') (fillna0 h)))))))))))))))"

definition load_data :: "pylib \<Rightarrow> dataframe \<Rightarrow> error + dataframe" where
  "load_data L csv = bind_err (normalize L csv) (derive L)"

section \<open>Vocabulary of the properties\<close>

text \<open>A cell of a timestamp column is missing or a timestamp.\<close>

fun is_ts :: "cell \<Rightarrow> bool" where
  "is_ts NA = True"
| "is_ts (Ts t) = True"
| "is_ts x = False"

text \<open>The four timestamp columns that \<^verbatim>\<open>load_data\<close> leaves in the table (lines 33 to 39),
  and the five day-difference columns with the two timestamp columns each is computed
  from, minuend first (lines 41 to 43, 46 and 47).\<close>

definition date_columns :: "ustr list" where
  "date_columns = [u ''date_creation'', u ''date_expedition'', u ''date_last_status'',
     u ''date_commande'']"

definition day_difference_columns :: "(ustr \<times> ustr \<times> ustr) list" where
  "day_difference_columns =
     [(u ''commande_to_creation_days'', u ''date_creation'', u ''date_commande''),
      (u ''commande_to_expedition_days'', u ''date_expedition'', u ''date_commande''),
      (u ''commande_to_last_status_days'', u ''date_last_status'', u ''date_commande''),
      (u ''delivery_delay_days'', u ''date_last_status'', u ''date_expedition''),
      (u ''processing_time_days'', u ''date_expedition'', u ''date_creation'')]"

section \<open>The cached load\<close>



section \<open>Aggregates and insight rules\<close>

text \<open>\<^verbatim>\<open>Series.mean()\<close> skips missing values; the mean of no value is \<^verbatim>\<open>NaN\<close> (here
  \<open>None\<close>). Truth values count as 0 and 1; a text value makes the mean raise.\<close>

fun num_of :: "cell \<Rightarrow> rat option" where
  "num_of (Num x) = Some x"
| "num_of (Bool b) = Some (of_bool b)"
| "num_of c = None"

definition series_mean :: "series \<Rightarrow> error + rat option" where
  "series_mean s =
     (if list_ex (\<lambda>c. c \<noteq> NA \<and> num_of c = None) s then Inl TypeError
      else (let vs = List.map_filter num_of s
            in Inr (if vs = [] then None else Some (sum_list vs / of_nat (length vs)))))"

text \<open>A comparison \<^verbatim>\<open>mean > k\<close> is false when the mean is \<^verbatim>\<open>NaN\<close>.\<close>

definition exceeds :: "rat option \<Rightarrow> rat \<Rightarrow> bool" where
  "exceeds m k = (case m of None \<Rightarrow> False | Some x \<Rightarrow> x > k)"

definition msg_processing :: ustr where
  "msg_processing =
     u ''Order processing is slow. Consider optimizing warehouse or admin processes.''"

definition msg_shipping :: ustr where
  "msg_shipping = u ''Shipping times are high. Investigate courier or route efficiency.''"

definition msg_none :: ustr where
  "msg_none = u ''No major bottlenecks detected. Keep monitoring for improvements!''"

text \<open>Lines 120 to 126 (and again 246 to 252): the list \<^verbatim>\<open>insights\<close> starts empty and
  each rule that fires appends its text.\<close>

definition insight_rules :: "rat option \<Rightarrow> rat option \<Rightarrow> ustr list" where
  "insight_rules m1 m2 =
     (let insights0 = [];
          insights1 = (if exceeds m1 1 then insights0 @ [msg_processing] else insights0);
          insights2 = (if exceeds m2 2 then insights1 @ [msg_shipping] else insights1)
      in if insights2 = [] then insights2 @ [msg_none] else insights2)"

definition insights :: "dataframe \<Rightarrow> error + ustr list" where
  "insights df =
     bind_err (get_col df (u ''processing_time_days'')) (\<lambda>p.
     bind_err (series_mean p) (\<lambda>m1.
     bind_err (get_col df (u ''delivery_delay_days'')) (\<lambda>d.
     bind_err (series_mean d) (\<lambda>m2.
     Inr (insight_rules m1 m2)))))"

text \<open>Two tables for the insight rules: in \<open>frame1\<close> the mean processing time is exactly
  1 day and the mean delivery delay is 5/2 days; in \<open>frame2\<close> every value is missing.\<close>

definition frame1 :: dataframe where
  "frame1 = [(u ''processing_time_days'', [Num 1, NA, Num 1]),
             (u ''delivery_delay_days'', [Num 2, Num 3, NA])]"

definition frame2 :: dataframe where
  "frame2 = [(u ''processing_time_days'', [NA, NA]),
             (u ''delivery_delay_days'', [NA, NA])]"

section \<open>Sorting, row selection and grouping\<close>

text \<open>
  The order of two values that are present: numbers and truth values by value, texts by
  code points, timestamps and time differences by value. Python compares only values
  of one kind, so a sort of a series that mixes kinds raises \<^verbatim>\<open>TypeError\<close>; the first
  component of the key is the kind.
\<close>

fun cell_key :: "cell \<Rightarrow> skey" where
  "cell_key (Num x) = (0, x, [])"
| "cell_key (Bool b) = (0, of_bool b, [])"
| "cell_key (Str t) = (1, 0, t)"
| "cell_key (Ts t) = (2, of_int t, [])"
| "cell_key (Td d) = (3, of_int d, [])"
| "cell_key NA = (4, 0, [])"



definition argsort_stable :: "skey list \<Rightarrow> nat list" where
  "argsort_stable ks = sort_key (\<lambda>j. ks ! j) [0..<length ks]"







text \<open>
  \<^verbatim>\<open>groupby(key)\<close> with the defaults \<^verbatim>\<open>sort=True\<close> and \<^verbatim>\<open>dropna=True\<close>: one group per
  distinct key value that is present, in ascending order of the keys; a row whose key
  is missing belongs to no group. \<open>group_rows ks g col\<close> are the values of the column
  \<open>col\<close> in the rows of group \<open>g\<close>.
\<close>

definition group_keys :: "series \<Rightarrow> cell list" where
  "group_keys ks = sort_key cell_key (remdups (filter (\<lambda>c. c \<noteq> NA) ks))"

definition group_rows :: "series \<Rightarrow> cell \<Rightarrow> series \<Rightarrow> series" where
  "group_rows ks g col = map snd (filter (\<lambda>(k, v). k = g) (zip ks col))"

text \<open>The aggregates: \<^verbatim>\<open>count\<close> is the number of values that are present, \<^verbatim>\<open>size\<close> the
  number of rows, \<^verbatim>\<open>mean\<close> the mean of the values that are present, \<^verbatim>\<open>sum\<close> adds the
  values that are present with Python's \<^verbatim>\<open>+\<close> (0 when there is none).\<close>

definition agg_count :: "series \<Rightarrow> cell" where
  "agg_count s = Num (of_nat (length (filter (\<lambda>c. c \<noteq> NA) s)))"


definition agg_mean :: "series \<Rightarrow> error + cell" where
  "agg_mean s = bind_err (series_mean s) (\<lambda>m. Inr (case m of None \<Rightarrow> NA | Some x \<Rightarrow> Num x))"

fun py_add :: "cell \<Rightarrow> cell \<Rightarrow> error + cell" where
  "py_add (Str a) (Str b) = Inr (Str (a @ b))"
| "py_add x y = (case (num_of x, num_of y) of
      (Some a, Some b) \<Rightarrow> Inr (Num (a + b)) | _ \<Rightarrow> Inl TypeError)"

fun py_add_all :: "cell \<Rightarrow> series \<Rightarrow> error + cell" where
  "py_add_all acc [] = Inr acc"
| "py_add_all acc (x # xs) = bind_err (py_add acc x) (\<lambda>acc'. py_add_all acc' xs)"

definition agg_sum :: "series \<Rightarrow> error + cell" where
  "agg_sum s = (case filter (\<lambda>c. c \<noteq> NA) s of [] \<Rightarrow> Inr (Num 0) | x # xs \<Rightarrow> py_add_all x xs)"

fun map_err :: "('a \<Rightarrow> error + 'b) \<Rightarrow> 'a list \<Rightarrow> error + 'b list" where
  "map_err f [] = Inr []"
| "map_err f (x # xs) = bind_err (f x) (\<lambda>y. bind_err (map_err f xs) (\<lambda>ys. Inr (y # ys)))"

text \<open>Lines 139 to 143: orders, revenue and return rate per destination region; the
  group keys are the first column after \<^verbatim>\<open>reset_index()\<close>.\<close>

definition wilaya_stats :: "dataframe \<Rightarrow> error + dataframe" where
  "wilaya_stats df =
     bind_err (get_col df (u ''to_wilaya_name'')) (\<lambda>ks.
     bind_err (get_col df (u ''order_id'')) (\<lambda>oid.
     bind_err (get_col df (u ''success_revenue'')) (\<lambda>sr.
     bind_err (get_col df (u ''returned'')) (\<lambda>rt.
     let gs = group_keys ks in
     bind_err (map_err (\<lambda>g. agg_sum (group_rows ks g sr)) gs) (\<lambda>revenue.
     bind_err (map_err (\<lambda>g. agg_mean (group_rows ks g rt)) gs) (\<lambda>return_rate.
     Inr [(u ''to_wilaya_name'', gs),
          (u ''orders'', map (\<lambda>g. agg_count (group_rows ks g oid)) gs),
          (u ''revenue'', revenue),
          (u ''return_rate'', return_rate)]))))))"










section \<open>A sample library and a sample file\<close>

text \<open>An instance of the library parameters, used to run the definitions on concrete
  tables: lower-casing of ASCII and Latin-1 letters, stripping of ASCII white space, a
  timestamp parser that reads a number as nanoseconds since the epoch and rejects
  everything else, and a stable insertion sort. \<open>csv0\<close> is a file of three orders without
  the column \<^verbatim>\<open>Date de commande\<close>; \<open>derived0\<close> is the table \<^verbatim>\<open>load_data\<close> makes of it.\<close>

definition lower_cp :: "nat \<Rightarrow> nat" where
  "lower_cp c = (if (65 \<le> c \<and> c \<le> 90) \<or> (192 \<le> c \<and> c \<le> 222 \<and> c \<noteq> 215) then c + 32 else c)"

definition is_space_cp :: "nat \<Rightarrow> bool" where
  "is_space_cp c = (c = 32 \<or> (9 \<le> c \<and> c \<le> 13))"

fun parse_ns :: "cell \<Rightarrow> int option" where
  "parse_ns (Num x) = Some \<lfloor>x\<rfloor>"
| "parse_ns c = None"

definition lib0 :: pylib where
  "lib0 = \<lparr> parse_datetime = (\<lambda>s i. parse_ns (s ! i)),
            py_lower = map lower_cp,
            py_strip = (\<lambda>s. rev (dropWhile is_space_cp (rev (dropWhile is_space_cp s)))),
            argsort = argsort_stable \<rparr>"

definition csv0 :: dataframe where
  "csv0 =
    [(u ''order_id'', [Num 1, NA, Num 3]),
     (u ''to_wilaya_name'', [Str (u ''Alger''), Str (u ''Oran''), NA]),
     (u ''last_status'', [Str (u ''Livr'' @ [201]), Str (u ''Retour - d'' @ [233] @ u ''j'' @ [224] @ u '' livr'' @ [233]), NA]),
     (u ''date_creation'', [Num 172800000000000, NA, Str (u ''bad'')]),
     (u ''date_expedition'', [Num 86400000000001, Num 86400000000000, Num 0]),
     (u ''date_last_status'', [Num 432000000000000, Num 86400000000000, NA]),
     (u ''Montant total de la commande'', [Num 1500, Num 900, NA]),
     (u ''has_recouvrement'', [Num 1, NA, NA])]"

definition derived0 :: dataframe where
  "derived0 =
    [(u ''order_id'', [Num 1, NA, Num 3]),
     (u ''to_wilaya_name'', [Str (u ''Alger''), Str (u ''Oran''), NA]),
     (u ''last_status'', [Str (u ''Livr'' @ [201]), Str (u ''Retour - d'' @ [233] @ u ''j'' @ [224] @ u '' livr'' @ [233]), NA]),
     (u ''date_creation'', [Ts 172800000000000, NA, NA]),
     (u ''date_expedition'', [Ts 86400000000001, Ts 86400000000000, Ts 0]),
     (u ''date_last_status'', [Ts 432000000000000, Ts 86400000000000, NA]),
     (u ''Montant total de la commande'', [Num 1500, Num 900, NA]),
     (u ''has_recouvrement'', [Num 1, Num 0, Num 0]),
     (u ''date_commande'', [NA, NA, NA]),
     (u ''commande_to_creation_days'', [NA, NA, NA]),
     (u ''commande_to_expedition_days'', [NA, NA, NA]),
     (u ''commande_to_last_status_days'', [NA, NA, NA]),
     (u ''delivered'', [Bool True, Bool True, NA]),
     (u ''returned'', [Bool False, Bool True, NA]),
     (u ''delivery_delay_days'', [Num 3, Num 0, NA]),
     (u ''processing_time_days'', [Num (- 1), NA, NA]),
     (u ''revenue'', [Num 1500, Num 900, Num 0]),
     (u ''lost_revenue'', [Num 0, Num 900, Num 0]),
     (u ''success_revenue'', [Num 1500, Num 900, Num 0])]"



text \<open>The per-region summary of \<open>derived0\<close>.\<close>

definition stats0 :: dataframe where
  "stats0 =
    [(u ''to_wilaya_name'', [Str (u ''Alger''), Str (u ''Oran'')]),
     (u ''orders'', [Num 1, Num 0]),
     (u ''revenue'', [Num 1500, Num 900]),
     (u ''return_rate'', [Num 0, Num 1])]"








section \<open>Proofs\<close>

lemma bind_err_simps [simp]: "bind_err (Inl e) f = Inl e" "bind_err (Inr x) f = f x"
  by (simp_all add: bind_err_def)

lemma bind_err_Inr: "bind_err m f = Inr y \<longleftrightarrow> (\<exists>x. m = Inr x \<and> f x = Inr y)"
  by (cases m) simp_all

lemma get_set_col: "get_col (set_col df k v) k' = (if k' = k then Inr v else get_col df k')"
  by (simp add: get_col_def set_col_def update_conv')

lemma columns_set_col: "set (columns (set_col df k v)) = insert k (set (columns df))"
  by (simp add: columns_def set_col_def AList.dom_update)

lemma columns_iff: "k \<in> set (columns df) \<longleftrightarrow> (\<exists>c. get_col df k = Inr c)"
proof -
  have "k \<in> set (columns df) \<longleftrightarrow> map_of df k \<noteq> None"
    by (simp add: columns_def map_of_eq_None_iff)
  then show ?thesis
    by (cases "map_of df k") (simp_all add: get_col_def)
qed

lemma length_to_datetime [simp]: "length (to_datetime L s) = length s"
  by (simp add: to_datetime_def)

lemma nth_to_datetime:
  "i < length s \<Longrightarrow> to_datetime L s ! i = (case parse_datetime L s i of None \<Rightarrow> NA | Some t \<Rightarrow> Ts t)"
  by (simp add: to_datetime_def)

lemma get_col_length: "wf_df df \<Longrightarrow> get_col df k = Inr c \<Longrightarrow> length c = nrows df"
  by (auto simp: wf_df_def get_col_def list_all_iff split: option.splits dest!: map_of_SomeD)

lemma set_update_cases: "(a, b) \<in> set (AList.update k v al) \<Longrightarrow> (a, b) \<in> set al \<or> (a = k \<and> b = v)"
  by (induction al) (auto split: if_splits)

lemma nrows_set_col:
  "wf_df df \<Longrightarrow> df \<noteq> [] \<Longrightarrow> length v = nrows df \<Longrightarrow> nrows (set_col df k v) = nrows df"
  by (cases df) (auto simp: nrows_def set_col_def wf_df_def)

lemma wf_set_col:
  assumes "wf_df df" "df \<noteq> []" "length v = nrows df"
  shows "wf_df (set_col df k v)"
proof -
  have n: "nrows (set_col df k v) = nrows df"
    using assms by (rule nrows_set_col)
  show ?thesis
    unfolding wf_df_def list_all_iff n
    using assms(1,3) by (auto simp: set_col_def wf_df_def list_all_iff dest!: set_update_cases)
qed

lemma get_col_nonempty: "get_col df k = Inr c \<Longrightarrow> df \<noteq> []"
  by (auto simp: get_col_def)

lemma set_col_nonempty [simp]: "set_col df k v \<noteq> []"
  by (cases df) (simp_all add: set_col_def)

lemma is_ts_to_datetime: "list_all is_ts (to_datetime L s)"
  by (simp add: to_datetime_def list_all_iff split: option.splits)

lemma is_ts_cases: "is_ts c \<Longrightarrow> c = NA \<or> (\<exists>t. c = Ts t)"
  by (cases c) simp_all

lemma u_eq_iff [simp]: "u s = u t \<longleftrightarrow> s = t"
  unfolding u_def by (rule inj_map_eq_map) (rule inj_of_char)

lemma normalize_Inr:
  assumes "normalize L csv = Inr df4"
  shows "\<exists>c1 c2 c3. get_col csv (u ''date_creation'') = Inr c1
    \<and> get_col csv (u ''date_expedition'') = Inr c2
    \<and> get_col csv (u ''date_last_status'') = Inr c3
    \<and> df4 = (let df3 = set_col (set_col (set_col csv (u ''date_creation'') (to_datetime L c1))
            (u ''date_expedition'') (to_datetime L c2)) (u ''date_last_status'') (to_datetime L c3)
         in set_col df3 (u ''date_commande'')
           (case get_col csv (u ''Date de commande'') of
              Inr c \<Rightarrow> to_datetime L c | Inl e \<Rightarrow> replicate (nrows df3) NA))"
  using assms unfolding normalize_def Let_def bind_err_Inr
  apply (elim exE conjE)
  apply (auto simp: get_set_col columns_set_col columns_iff bind_err_Inr split: if_splits sum.splits)
  done


lemma derive_Inr:
  assumes "derive L df4 = Inr df"
  shows "\<exists>d1 d2 d3 d4 d5 f1 f2 m h.
      day_diff df4 (u ''date_creation'') (u ''date_commande'') = Inr d1
    \<and> day_diff df4 (u ''date_expedition'') (u ''date_commande'') = Inr d2
    \<and> day_diff df4 (u ''date_last_status'') (u ''date_commande'') = Inr d3
    \<and> day_diff df4 (u ''date_last_status'') (u ''date_expedition'') = Inr d4
    \<and> day_diff df4 (u ''date_expedition'') (u ''date_creation'') = Inr d5
    \<and> status_flag L df4 livre = Inr f1
    \<and> status_flag L df4 retour = Inr f2
    \<and> get_col df4 (u ''Montant total de la commande'') = Inr m
    \<and> get_col df4 (u ''has_recouvrement'') = Inr h
    \<and> df = set_col (set_col (set_col (set_col (set_col (set_col (set_col (set_col (set_col
         (set_col (set_col df4
            (u ''commande_to_creation_days'') d1)
            (u ''commande_to_expedition_days'') d2)
            (u ''commande_to_last_status_days'') d3)
            (u ''delivered'') f1)
            (u ''returned'') f2)
            (u ''delivery_delay_days'') d4)
            (u ''processing_time_days'') d5)
            (u ''revenue'') (fillna0 m))
            (u ''lost_revenue'') (where0 (fillna0 m) f2))
            (u ''success_revenue'') (where0 (fillna0 m) f1))
            (u ''has_recouvrement'') (fillna0 h)"
  using assms unfolding derive_def Let_def bind_err_Inr
  apply (elim exE conjE)
  apply (clarsimp simp: get_set_col day_diff_def status_flag_def bind_err_Inr)
  done


lemma normalize_dates:
  assumes "normalize L csv = Inr df4" and "wf_df csv" and "k \<in> set date_columns"
  shows "\<exists>s. get_col df4 k = Inr s \<and> length s = nrows csv \<and> list_all is_ts s"
proof -
  from normalize_Inr [OF assms(1)] obtain c1 c2 c3 where
    g1: "get_col csv (u ''date_creation'') = Inr c1" and
    g2: "get_col csv (u ''date_expedition'') = Inr c2" and
    g3: "get_col csv (u ''date_last_status'') = Inr c3" and
    df4: "df4 = (let df3 = set_col (set_col (set_col csv (u ''date_creation'') (to_datetime L c1))
            (u ''date_expedition'') (to_datetime L c2)) (u ''date_last_status'') (to_datetime L c3)
         in set_col df3 (u ''date_commande'')
           (case get_col csv (u ''Date de commande'') of
              Inr c \<Rightarrow> to_datetime L c | Inl e \<Rightarrow> replicate (nrows df3) NA))"
    by blast
  have ne: "csv \<noteq> []" using g1 by (rule get_col_nonempty)
  have l1: "length c1 = nrows csv" and l2: "length c2 = nrows csv" and l3: "length c3 = nrows csv"
    using assms(2) g1 g2 g3 by (simp_all add: get_col_length)
  define dfa where "dfa = set_col csv (u ''date_creation'') (to_datetime L c1)"
  define dfb where "dfb = set_col dfa (u ''date_expedition'') (to_datetime L c2)"
  define dfc where "dfc = set_col dfb (u ''date_last_status'') (to_datetime L c3)"
  have wa: "wf_df dfa" and na: "nrows dfa = nrows csv"
    unfolding dfa_def using assms(2) ne l1 by (simp_all add: wf_set_col nrows_set_col)
  have wb: "wf_df dfb" and nb: "nrows dfb = nrows csv"
    unfolding dfb_def using wa na l2 by (simp_all add: wf_set_col nrows_set_col dfa_def)
  have nc: "nrows dfc = nrows csv"
    unfolding dfc_def using wb nb l3 by (simp add: nrows_set_col dfb_def)
  define c4 where "c4 = (case get_col csv (u ''Date de commande'') of
              Inr c \<Rightarrow> to_datetime L c | Inl e \<Rightarrow> replicate (nrows dfc) NA)"
  have l4: "length c4 = nrows csv"
    unfolding c4_def using nc assms(2) by (auto split: sum.splits simp: get_col_length)
  have t4: "list_all is_ts c4"
    unfolding c4_def
    by (cases "get_col csv (u ''Date de commande'')") (simp_all add: is_ts_to_datetime, simp add: list_all_iff)
  have eq: "df4 = set_col dfc (u ''date_commande'') c4"
    unfolding c4_def dfc_def dfb_def dfa_def using df4 unfolding Let_def .
  from assms(3) consider "k = u ''date_creation''" | "k = u ''date_expedition''"
    | "k = u ''date_last_status''" | "k = u ''date_commande''"
    by (auto simp: date_columns_def)
  then show ?thesis
  proof cases
    case 1 then show ?thesis
      by (simp add: eq dfa_def dfb_def dfc_def get_set_col l1 is_ts_to_datetime)
  next
    case 2 then show ?thesis
      by (simp add: eq dfa_def dfb_def dfc_def get_set_col l2 is_ts_to_datetime)
  next
    case 3 then show ?thesis
      by (simp add: eq dfa_def dfb_def dfc_def get_set_col l3 is_ts_to_datetime)
  next
    case 4 then show ?thesis
      by (simp add: eq get_set_col l4 t4)
  qed
qed

lemma derive_keeps:
  assumes "derive L df4 = Inr df" and "k \<in> set date_columns \<or> k = u ''last_status''
      \<or> k = u ''Montant total de la commande''"
  shows "get_col df k = get_col df4 k"
  using derive_Inr [OF assms(1)] assms(2)
  by (auto simp: get_set_col date_columns_def)

lemma load_data_Inr:
  "load_data L csv = Inr df \<longleftrightarrow> (\<exists>df4. normalize L csv = Inr df4 \<and> derive L df4 = Inr df)"
  by (simp add: load_data_def bind_err_Inr)

lemma day_diff_Inr:
  assumes "day_diff df a b = Inr d"
  shows "\<exists>x y. get_col df a = Inr x \<and> get_col df b = Inr y \<and> d = dt_days (series_sub x y)"
  using assms by (auto simp: day_diff_def bind_err_Inr)

lemma nth_day_diff:
  "i < length x \<Longrightarrow> i < length y \<Longrightarrow> dt_days (series_sub x y) ! i = days_cell (sub_cell (x ! i) (y ! i))"
  by (simp add: dt_days_def series_sub_def)

lemma length_day_diff [simp]: "length (dt_days (series_sub x y)) = min (length x) (length y)"
  by (simp add: dt_days_def series_sub_def)

lemma derive_day_columns:
  assumes "derive L df4 = Inr df" and "(n, a, b) \<in> set day_difference_columns"
  shows "get_col df n = day_diff df4 a b"
  using derive_Inr [OF assms(1)] assms(2)
  by (auto simp: get_set_col day_difference_columns_def)

lemma day_columns_dates:
  "(n, a, b) \<in> set day_difference_columns \<Longrightarrow> a \<in> set date_columns \<and> b \<in> set date_columns"
  by (auto simp: day_difference_columns_def date_columns_def)

text \<open>
  Claim C1. For every record of the loaded table and each of the five day-difference
  columns (among them \<^verbatim>\<open>processing_time_days\<close>, dispatch minus creation): the value is
  missing whenever one of its two timestamps is missing, and otherwise it is the whole
  number of days in the difference of the two timestamps, that is the floor of the
  difference divided by one day, which is negative when the timestamps are inverted.
  It is never replaced by zero.
\<close>

theorem day_differences_propagate_missing:
  assumes "load_data L csv = Inr df" and "wf_df csv"
    and "(n, a, b) \<in> set day_difference_columns" and "i < nrows csv"
  shows "\<exists>x y d. get_col df a = Inr x \<and> get_col df b = Inr y \<and> get_col df n = Inr d
    \<and> length x = nrows csv \<and> length y = nrows csv \<and> length d = nrows csv
    \<and> (x ! i = NA \<or> (\<exists>t. x ! i = Ts t)) \<and> (y ! i = NA \<or> (\<exists>t. y ! i = Ts t))
    \<and> (x ! i = NA \<or> y ! i = NA \<longrightarrow> d ! i = NA)
    \<and> (\<forall>s t. x ! i = Ts s \<and> y ! i = Ts t \<longrightarrow> d ! i = Num (of_int ((s - t) div ns_per_day)))"
proof -
  from assms(1) obtain df4 where nz: "normalize L csv = Inr df4" and dv: "derive L df4 = Inr df"
    by (auto simp: load_data_Inr)
  from day_columns_dates [OF assms(3)] have ka: "a \<in> set date_columns" and kb: "b \<in> set date_columns"
    by simp_all
  from normalize_dates [OF nz assms(2) ka] obtain x where
    x: "get_col df4 a = Inr x" "length x = nrows csv" "list_all is_ts x" by blast
  from normalize_dates [OF nz assms(2) kb] obtain y where
    y: "get_col df4 b = Inr y" "length y = nrows csv" "list_all is_ts y" by blast
  have d: "get_col df n = Inr (dt_days (series_sub x y))"
    using derive_day_columns [OF dv assms(3)] x(1) y(1) by (simp add: day_diff_def)
  have xa: "get_col df a = Inr x" using derive_keeps [OF dv, of a] ka x(1) by simp
  have yb: "get_col df b = Inr y" using derive_keeps [OF dv, of b] kb y(1) by simp
  have ix: "i < length x" and iy: "i < length y" using assms(4) x(2) y(2) by simp_all
  have tx: "is_ts (x ! i)" using x(3) ix by (simp add: list_all_length)
  have ty: "is_ts (y ! i)" using y(3) iy by (simp add: list_all_length)
  have nth: "dt_days (series_sub x y) ! i = days_cell (sub_cell (x ! i) (y ! i))"
    using ix iy by (rule nth_day_diff)
  have p1: "x ! i = NA \<or> y ! i = NA \<longrightarrow> dt_days (series_sub x y) ! i = NA"
    unfolding nth by (cases "x ! i") auto
  have p2: "\<forall>s t. x ! i = Ts s \<and> y ! i = Ts t \<longrightarrow>
      dt_days (series_sub x y) ! i = Num (of_int ((s - t) div ns_per_day))"
    unfolding nth by auto
  show ?thesis
    using xa yb d x(2) y(2) is_ts_cases [OF tx] is_ts_cases [OF ty] p1 p2 by simp
qed


lemma load_csv0: "load_data lib0 csv0 = Inr derived0"
  by code_simp



text \<open>On the sample file: order 0 was dispatched before it was created and has a
  processing time of \<open>-1\<close> day; orders 1 and 2 have no creation timestamp and no
  processing time.\<close>

theorem day_differences_propagate_missing_witness:
  "wf_df csv0 \<and> (u ''processing_time_days'', u ''date_expedition'', u ''date_creation'')
       \<in> set day_difference_columns \<and> 0 < nrows csv0
   \<and> get_col derived0 (u ''processing_time_days'') = Inr [Num (- 1), NA, NA]
   \<and> (\<exists>x y d. get_col derived0 (u ''date_expedition'') = Inr x
        \<and> get_col derived0 (u ''date_creation'') = Inr y
        \<and> get_col derived0 (u ''processing_time_days'') = Inr d
        \<and> length x = nrows csv0 \<and> length y = nrows csv0 \<and> length d = nrows csv0
        \<and> (x ! 0 = NA \<or> (\<exists>t. x ! 0 = Ts t)) \<and> (y ! 0 = NA \<or> (\<exists>t. y ! 0 = Ts t))
        \<and> (x ! 0 = NA \<or> y ! 0 = NA \<longrightarrow> d ! 0 = NA)
        \<and> (\<forall>s t. x ! 0 = Ts s \<and> y ! 0 = Ts t \<longrightarrow> d ! 0 = Num (of_int ((s - t) div ns_per_day))))"
proof -
  have h2: "wf_df csv0" by code_simp
  have h3: "(u ''processing_time_days'', u ''date_expedition'', u ''date_creation'')
       \<in> set day_difference_columns"
    by (simp add: day_difference_columns_def)
  have h4: "0 < nrows csv0" by code_simp
  have h5: "get_col derived0 (u ''processing_time_days'') = Inr [Num (- 1), NA, NA]"
    by code_simp
  from day_differences_propagate_missing [OF load_csv0 h2 h3 h4] h2 h3 h4 h5
  show ?thesis by blast
qed

lemma starts_with_iff: "starts_with p t \<longleftrightarrow> (\<exists>b. t = p @ b)"
  by (induction p t rule: starts_with.induct) auto

lemma has_substring_iff: "has_substring p t \<longleftrightarrow> (\<exists>a b. t = a @ p @ b)"
proof (induction t)
  case Nil
  then show ?case by auto
next
  case (Cons c cs)
  show ?case
  proof
    assume "has_substring p (c # cs)"
    then consider "starts_with p (c # cs)" | "has_substring p cs" by auto
    then show "\<exists>a b. c # cs = a @ p @ b"
    proof cases
      case 1
      then obtain b where "c # cs = p @ b" by (auto simp: starts_with_iff)
      then have "c # cs = [] @ p @ b" by simp
      then show ?thesis by blast
    next
      case 2
      then obtain a b where "cs = a @ p @ b" using Cons.IH by blast
      then have "c # cs = (c # a) @ p @ b" by simp
      then show ?thesis by blast
    qed
  next
    assume "\<exists>a b. c # cs = a @ p @ b"
    then obtain a b where ab: "c # cs = a @ p @ b" by blast
    show "has_substring p (c # cs)"
    proof (cases a)
      case Nil
      then have "starts_with p (c # cs)" using ab by (auto simp: starts_with_iff)
      then show ?thesis by simp
    next
      case (Cons a0 as)
      then have "cs = as @ p @ b" using ab by simp
      then have "has_substring p cs" using Cons.IH by blast
      then show ?thesis by simp
    qed
  qed
qed

lemma normalize_keeps:
  assumes "normalize L csv = Inr df4" and "k \<notin> set date_columns"
  shows "get_col df4 k = get_col csv k"
  using normalize_Inr [OF assms(1)] assms(2)
  by (auto simp: get_set_col date_columns_def Let_def)

lemma status_flag_Inr:
  assumes "status_flag L df p = Inr f"
  shows "\<exists>s. get_col df (u ''last_status'') = Inr s \<and> f = map (contains_cell p \<circ> lower_cell L) s"
  using assms
  by (auto simp: status_flag_def bind_err_Inr str_lower_def str_contains_def split: if_splits)

lemma flag_cell_True:
  "(contains_cell p (lower_cell L c) = Bool True) \<longleftrightarrow> (\<exists>t a b. c = Str t \<and> py_lower L t = a @ p @ b)"
  by (cases c) (auto simp: has_substring_iff)

lemma derive_flags:
  assumes "derive L df4 = Inr df"
  shows "get_col df (u ''delivered'') = status_flag L df4 livre"
    and "get_col df (u ''returned'') = status_flag L df4 retour"
  using derive_Inr [OF assms] by (auto simp: get_set_col)

lemma load_flags:
  assumes "load_data L csv = Inr df" and "wf_df csv"
  shows "\<exists>s. get_col csv (u ''last_status'') = Inr s \<and> get_col df (u ''last_status'') = Inr s
    \<and> length s = nrows csv
    \<and> get_col df (u ''delivered'') = Inr (map (contains_cell livre \<circ> lower_cell L) s)
    \<and> get_col df (u ''returned'') = Inr (map (contains_cell retour \<circ> lower_cell L) s)"
proof -
  from assms(1) obtain df4 where nz: "normalize L csv = Inr df4" and dv: "derive L df4 = Inr df"
    by (auto simp: load_data_Inr)
  from derive_Inr [OF dv] obtain f1 f2 where
    f1: "status_flag L df4 livre = Inr f1" and f2: "status_flag L df4 retour = Inr f2"
    by blast
  from status_flag_Inr [OF f1] obtain s where
    s: "get_col df4 (u ''last_status'') = Inr s" and e1: "f1 = map (contains_cell livre \<circ> lower_cell L) s"
    by blast
  from status_flag_Inr [OF f2] s have e2: "f2 = map (contains_cell retour \<circ> lower_cell L) s"
    by auto
  have sc: "get_col csv (u ''last_status'') = Inr s"
    using normalize_keeps [OF nz, of "u ''last_status''"] s by (simp add: date_columns_def)
  have ls: "length s = nrows csv" using assms(2) sc by (rule get_col_length)
  have sd: "get_col df (u ''last_status'') = Inr s"
    using derive_keeps [OF dv, of "u ''last_status''"] s by simp
  have d: "get_col df (u ''delivered'') = Inr f1" using derive_flags(1) [OF dv] f1 by simp
  have r: "get_col df (u ''returned'') = Inr f2" using derive_flags(2) [OF dv] f2 by simp
  show ?thesis using sc sd ls d r e1 e2 by simp
qed

text \<open>
  Claim C2. For every record of the loaded table, the delivered flag is true exactly when
  the status is a text whose lower-cased form contains the token \<open>livre\<close> (\<^verbatim>\<open>livr\<close> and e acute, code point 233) as a
  substring, and the returned flag is true exactly when it contains \<^verbatim>\<open>retour\<close>. Each flag
  is computed from the status alone, so a status that contains both tokens sets both.
\<close>

theorem status_flags_by_substring:
  assumes "load_data L csv = Inr df" and "wf_df csv" and "i < nrows csv"
  shows "\<exists>s d r. get_col df (u ''last_status'') = Inr s \<and> get_col df (u ''delivered'') = Inr d
    \<and> get_col df (u ''returned'') = Inr r
    \<and> length s = nrows csv \<and> length d = nrows csv \<and> length r = nrows csv
    \<and> (d ! i = Bool True \<longleftrightarrow> (\<exists>t a b. s ! i = Str t \<and> py_lower L t = a @ livre @ b))
    \<and> (r ! i = Bool True \<longleftrightarrow> (\<exists>t a b. s ! i = Str t \<and> py_lower L t = a @ retour @ b))"
proof -
  from load_flags [OF assms(1,2)] obtain s where
    sd: "get_col df (u ''last_status'') = Inr s" and ls: "length s = nrows csv" and
    d: "get_col df (u ''delivered'') = Inr (map (contains_cell livre \<circ> lower_cell L) s)" and
    r: "get_col df (u ''returned'') = Inr (map (contains_cell retour \<circ> lower_cell L) s)"
    by blast
  have i: "i < length s" using assms(3) ls by simp
  have p1: "map (contains_cell livre \<circ> lower_cell L) s ! i = Bool True
      \<longleftrightarrow> (\<exists>t a b. s ! i = Str t \<and> py_lower L t = a @ livre @ b)"
    using i by (simp add: flag_cell_True)
  have p2: "map (contains_cell retour \<circ> lower_cell L) s ! i = Bool True
      \<longleftrightarrow> (\<exists>t a b. s ! i = Str t \<and> py_lower L t = a @ retour @ b)"
    using i by (simp add: flag_cell_True)
  show ?thesis
    apply (rule exI [of _ s])
    apply (rule exI [of _ "map (contains_cell livre \<circ> lower_cell L) s"])
    apply (rule exI [of _ "map (contains_cell retour \<circ> lower_cell L) s"])
    using sd d r ls p1 p2 apply simp
    done
qed

lemma derive_revenue:
  assumes "derive L df4 = Inr df"
  shows "\<exists>m h f1 f2. get_col df4 (u ''Montant total de la commande'') = Inr m
    \<and> get_col df4 (u ''has_recouvrement'') = Inr h
    \<and> get_col df (u ''delivered'') = Inr f1 \<and> get_col df (u ''returned'') = Inr f2
    \<and> get_col df (u ''revenue'') = Inr (fillna0 m)
    \<and> get_col df (u ''lost_revenue'') = Inr (where0 (fillna0 m) f2)
    \<and> get_col df (u ''success_revenue'') = Inr (where0 (fillna0 m) f1)
    \<and> get_col df (u ''has_recouvrement'') = Inr (fillna0 h)"
  using derive_Inr [OF assms] by (auto simp: get_set_col)

lemma nth_where0:
  "i < length s \<Longrightarrow> i < length c \<Longrightarrow> where0 s c ! i = (if c ! i = Bool True then s ! i else Num 0)"
  by (simp add: where0_def where_cell_def)

lemma length_where0 [simp]: "length (where0 s c) = min (length s) (length c)"
  by (simp add: where0_def)

lemma length_fillna0 [simp]: "length (fillna0 s) = length s"
  by (simp add: fillna0_def)

lemma nth_fillna0: "i < length s \<Longrightarrow> fillna0 s ! i = (if s ! i = NA then Num 0 else s ! i)"
  by (cases "s ! i") (simp_all add: fillna0_def)

text \<open>
  Claim C3. For every record of the loaded table: the revenue is the order total, zero
  where the total is missing; the cash-collected flag is the one of the file, zero where
  it is missing; and when exactly one of the delivered and returned flags is true, the
  revenue of that flag (success or lost) is the revenue and the other is zero, so that a
  numeric revenue is their sum.
\<close>

theorem revenue_split_by_flag:
  assumes "load_data L csv = Inr df" and "wf_df csv" and "i < nrows csv"
  shows "\<exists>total h rev lost succ d r h'.
      get_col csv (u ''Montant total de la commande'') = Inr total
    \<and> get_col csv (u ''has_recouvrement'') = Inr h
    \<and> get_col df (u ''revenue'') = Inr rev \<and> get_col df (u ''lost_revenue'') = Inr lost
    \<and> get_col df (u ''success_revenue'') = Inr succ
    \<and> get_col df (u ''delivered'') = Inr d \<and> get_col df (u ''returned'') = Inr r
    \<and> get_col df (u ''has_recouvrement'') = Inr h'
    \<and> length rev = nrows csv \<and> length lost = nrows csv \<and> length succ = nrows csv
    \<and> length h' = nrows csv
    \<and> rev ! i = (if total ! i = NA then Num 0 else total ! i)
    \<and> h' ! i = (if h ! i = NA then Num 0 else h ! i)
    \<and> (d ! i = Bool True \<and> r ! i \<noteq> Bool True \<longrightarrow> succ ! i = rev ! i \<and> lost ! i = Num 0)
    \<and> (r ! i = Bool True \<and> d ! i \<noteq> Bool True \<longrightarrow> lost ! i = rev ! i \<and> succ ! i = Num 0)
    \<and> ((d ! i = Bool True) \<noteq> (r ! i = Bool True) \<longrightarrow>
         (\<forall>x. rev ! i = Num x \<longrightarrow> (\<exists>a b. succ ! i = Num a \<and> lost ! i = Num b \<and> a + b = x)))"
proof -
  from assms(1) obtain df4 where nz: "normalize L csv = Inr df4" and dv: "derive L df4 = Inr df"
    by (auto simp: load_data_Inr)
  from derive_revenue [OF dv] obtain m h f1 f2 where
    m: "get_col df4 (u ''Montant total de la commande'') = Inr m" and
    h: "get_col df4 (u ''has_recouvrement'') = Inr h" and
    d: "get_col df (u ''delivered'') = Inr f1" and r: "get_col df (u ''returned'') = Inr f2" and
    rev: "get_col df (u ''revenue'') = Inr (fillna0 m)" and
    lost: "get_col df (u ''lost_revenue'') = Inr (where0 (fillna0 m) f2)" and
    succ: "get_col df (u ''success_revenue'') = Inr (where0 (fillna0 m) f1)" and
    h': "get_col df (u ''has_recouvrement'') = Inr (fillna0 h)"
    by blast
  have mc: "get_col csv (u ''Montant total de la commande'') = Inr m"
    using normalize_keeps [OF nz, of "u ''Montant total de la commande''"] m
    by (simp add: date_columns_def)
  have hc: "get_col csv (u ''has_recouvrement'') = Inr h"
    using normalize_keeps [OF nz, of "u ''has_recouvrement''"] h by (simp add: date_columns_def)
  have lm: "length m = nrows csv" using assms(2) mc by (rule get_col_length)
  have lh: "length h = nrows csv" using assms(2) hc by (rule get_col_length)
  from load_flags [OF assms(1,2)] d r
  have l1: "length f1 = nrows csv" and l2: "length f2 = nrows csv" by auto
  have im: "i < length m" "i < length h" "i < length f1" "i < length f2"
    using assms(3) lm lh l1 l2 by simp_all
  have a: "fillna0 m ! i = (if m ! i = NA then Num 0 else m ! i)" using im(1) by (rule nth_fillna0)
  have b: "fillna0 h ! i = (if h ! i = NA then Num 0 else h ! i)" using im(2) by (rule nth_fillna0)
  have c: "where0 (fillna0 m) f1 ! i = (if f1 ! i = Bool True then fillna0 m ! i else Num 0)"
    using im by (simp add: nth_where0)
  have e: "where0 (fillna0 m) f2 ! i = (if f2 ! i = Bool True then fillna0 m ! i else Num 0)"
    using im by (simp add: nth_where0)
  have p: "(f1 ! i = Bool True \<and> f2 ! i \<noteq> Bool True \<longrightarrow>
        where0 (fillna0 m) f1 ! i = fillna0 m ! i \<and> where0 (fillna0 m) f2 ! i = Num 0)
    \<and> (f2 ! i = Bool True \<and> f1 ! i \<noteq> Bool True \<longrightarrow>
        where0 (fillna0 m) f2 ! i = fillna0 m ! i \<and> where0 (fillna0 m) f1 ! i = Num 0)
    \<and> ((f1 ! i = Bool True) \<noteq> (f2 ! i = Bool True) \<longrightarrow>
        (\<forall>x. fillna0 m ! i = Num x \<longrightarrow> (\<exists>a b. where0 (fillna0 m) f1 ! i = Num a
            \<and> where0 (fillna0 m) f2 ! i = Num b \<and> a + b = x)))"
    unfolding c e by auto
  show ?thesis
    apply (rule exI [of _ m], rule exI [of _ h], rule exI [of _ "fillna0 m"])
    apply (rule exI [of _ "where0 (fillna0 m) f2"], rule exI [of _ "where0 (fillna0 m) f1"])
    apply (rule exI [of _ f1], rule exI [of _ f2], rule exI [of _ "fillna0 h"])
    using mc hc rev lost succ d r h' lm lh l1 l2 a b p apply simp
    done
qed

lemma normalize_total:
  assumes "get_col csv (u ''date_creation'') = Inr c1"
    and "get_col csv (u ''date_expedition'') = Inr c2"
    and "get_col csv (u ''date_last_status'') = Inr c3"
  shows "\<exists>df4. normalize L csv = Inr df4"
  using assms
  by (auto simp: normalize_def Let_def get_set_col columns_set_col columns_iff)

lemma normalize_columns:
  assumes "normalize L csv = Inr df4"
    and "get_col csv (u ''date_creation'') = Inr c1"
    and "get_col csv (u ''date_expedition'') = Inr c2"
    and "get_col csv (u ''date_last_status'') = Inr c3"
  shows "get_col df4 (u ''date_creation'') = Inr (to_datetime L c1)"
    and "get_col df4 (u ''date_expedition'') = Inr (to_datetime L c2)"
    and "get_col df4 (u ''date_last_status'') = Inr (to_datetime L c3)"
    and "get_col csv (u ''Date de commande'') = Inr c4
      \<Longrightarrow> get_col df4 (u ''date_commande'') = Inr (to_datetime L c4)"
    and "u ''Date de commande'' \<notin> set (columns csv)
      \<Longrightarrow> \<exists>n. get_col df4 (u ''date_commande'') = Inr (replicate n NA)"
  using normalize_Inr [OF assms(1)] assms(2-4)
  by (auto simp: get_set_col Let_def columns_iff split: sum.splits)

lemma to_datetime_unparsed:
  "i < length c \<Longrightarrow> parse_datetime L c i = None \<Longrightarrow> to_datetime L c ! i = NA"
  by (simp add: nth_to_datetime)

text \<open>
  Claim C6. On a file that has the three columns \<^verbatim>\<open>date_creation\<close>, \<^verbatim>\<open>date_expedition\<close>
  and \<^verbatim>\<open>date_last_status\<close>, the normaliser returns a table, whatever the values in the
  date columns: a value that does not parse is missing in the result. When the file has
  no column \<^verbatim>\<open>Date de commande\<close>, the normaliser still returns and \<^verbatim>\<open>date_commande\<close> is
  missing in every record.
\<close>

theorem normalize_coerces_bad_timestamps:
  assumes "wf_df csv"
    and "get_col csv (u ''date_creation'') = Inr c1"
    and "get_col csv (u ''date_expedition'') = Inr c2"
    and "get_col csv (u ''date_last_status'') = Inr c3"
  shows "\<exists>df4 n1 n2 n3 n4. normalize L csv = Inr df4
    \<and> get_col df4 (u ''date_creation'') = Inr n1 \<and> get_col df4 (u ''date_expedition'') = Inr n2
    \<and> get_col df4 (u ''date_last_status'') = Inr n3 \<and> get_col df4 (u ''date_commande'') = Inr n4
    \<and> length n1 = nrows csv \<and> length n2 = nrows csv \<and> length n3 = nrows csv
    \<and> length n4 = nrows csv
    \<and> (\<forall>i<nrows csv. parse_datetime L c1 i = None \<longrightarrow> n1 ! i = NA)
    \<and> (\<forall>i<nrows csv. parse_datetime L c2 i = None \<longrightarrow> n2 ! i = NA)
    \<and> (\<forall>i<nrows csv. parse_datetime L c3 i = None \<longrightarrow> n3 ! i = NA)
    \<and> (\<forall>c4. get_col csv (u ''Date de commande'') = Inr c4 \<longrightarrow>
          (\<forall>i<nrows csv. parse_datetime L c4 i = None \<longrightarrow> n4 ! i = NA))
    \<and> (u ''Date de commande'' \<notin> set (columns csv) \<longrightarrow> (\<forall>i<nrows csv. n4 ! i = NA))"
proof -
  from normalize_total [OF assms(2-4)] obtain df4 where nz: "normalize L csv = Inr df4"
    by blast
  note cols = normalize_columns [OF nz assms(2-4)]
  have l1: "length c1 = nrows csv" and l2: "length c2 = nrows csv" and l3: "length c3 = nrows csv"
    using assms by (simp_all add: get_col_length)
  from normalize_dates [OF nz assms(1), of "u ''date_commande''"] obtain n4 where
    n4: "get_col df4 (u ''date_commande'') = Inr n4" and l4: "length n4 = nrows csv"
    by (auto simp: date_columns_def)
  have p4: "\<forall>c4. get_col csv (u ''Date de commande'') = Inr c4 \<longrightarrow>
          (\<forall>i<nrows csv. parse_datetime L c4 i = None \<longrightarrow> n4 ! i = NA)"
  proof (intro allI impI)
    fix c4 i
    assume g: "get_col csv (u ''Date de commande'') = Inr c4" and i: "i < nrows csv"
      and p: "parse_datetime L c4 i = None"
    have "length c4 = nrows csv" using assms(1) g by (rule get_col_length)
    moreover have "n4 = to_datetime L c4" using cols(4) [OF g] n4 by simp
    ultimately show "n4 ! i = NA" using i p by (simp add: to_datetime_unparsed)
  qed
  have p5: "u ''Date de commande'' \<notin> set (columns csv) \<longrightarrow> (\<forall>i<nrows csv. n4 ! i = NA)"
  proof (intro allI impI)
    fix i
    assume a: "u ''Date de commande'' \<notin> set (columns csv)" and i: "i < nrows csv"
    from cols(5) [OF a] n4 obtain n where "n4 = replicate n NA" by auto
    then show "n4 ! i = NA" using i l4 by auto
  qed
  show ?thesis
    apply (rule exI [of _ df4])
    apply (rule exI [of _ "to_datetime L c1"], rule exI [of _ "to_datetime L c2"])
    apply (rule exI [of _ "to_datetime L c3"], rule exI [of _ n4])
    using nz cols(1-3) n4 l1 l2 l3 l4 p4 p5 apply (simp add: to_datetime_unparsed)
    done
qed

text \<open>On the sample file, order 1 has the status \<^verbatim>\<open>Retour - d\<close>..\<^verbatim>\<open> livr\<close>.. with both
  tokens, and both of its flags are true.\<close>

theorem status_flags_by_substring_witness:
  "wf_df csv0 \<and> 1 < nrows csv0
   \<and> get_col derived0 (u ''delivered'') = Inr [Bool True, Bool True, NA]
   \<and> get_col derived0 (u ''returned'') = Inr [Bool False, Bool True, NA]
   \<and> (\<exists>s d r. get_col derived0 (u ''last_status'') = Inr s
        \<and> get_col derived0 (u ''delivered'') = Inr d \<and> get_col derived0 (u ''returned'') = Inr r
        \<and> length s = nrows csv0 \<and> length d = nrows csv0 \<and> length r = nrows csv0
        \<and> (d ! 1 = Bool True \<longleftrightarrow> (\<exists>t a b. s ! 1 = Str t \<and> py_lower lib0 t = a @ livre @ b))
        \<and> (r ! 1 = Bool True \<longleftrightarrow> (\<exists>t a b. s ! 1 = Str t \<and> py_lower lib0 t = a @ retour @ b)))"
proof -
  have h2: "wf_df csv0" by code_simp
  have h3: "1 < nrows csv0" by code_simp
  have h4: "get_col derived0 (u ''delivered'') = Inr [Bool True, Bool True, NA]" by code_simp
  have h5: "get_col derived0 (u ''returned'') = Inr [Bool False, Bool True, NA]" by code_simp
  from status_flags_by_substring [OF load_csv0 h2 h3] h2 h3 h4 h5
  show ?thesis by blast
qed

theorem revenue_split_by_flag_witness:
  "wf_df csv0 \<and> 0 < nrows csv0
   \<and> get_col derived0 (u ''success_revenue'') = Inr [Num 1500, Num 900, Num 0]
   \<and> get_col derived0 (u ''lost_revenue'') = Inr [Num 0, Num 900, Num 0]
   \<and> (\<exists>total h rev lost succ d r h'.
      get_col csv0 (u ''Montant total de la commande'') = Inr total
    \<and> get_col csv0 (u ''has_recouvrement'') = Inr h
    \<and> get_col derived0 (u ''revenue'') = Inr rev \<and> get_col derived0 (u ''lost_revenue'') = Inr lost
    \<and> get_col derived0 (u ''success_revenue'') = Inr succ
    \<and> get_col derived0 (u ''delivered'') = Inr d \<and> get_col derived0 (u ''returned'') = Inr r
    \<and> get_col derived0 (u ''has_recouvrement'') = Inr h'
    \<and> length rev = nrows csv0 \<and> length lost = nrows csv0 \<and> length succ = nrows csv0
    \<and> length h' = nrows csv0
    \<and> rev ! 0 = (if total ! 0 = NA then Num 0 else total ! 0)
    \<and> h' ! 0 = (if h ! 0 = NA then Num 0 else h ! 0)
    \<and> (d ! 0 = Bool True \<and> r ! 0 \<noteq> Bool True \<longrightarrow> succ ! 0 = rev ! 0 \<and> lost ! 0 = Num 0)
    \<and> (r ! 0 = Bool True \<and> d ! 0 \<noteq> Bool True \<longrightarrow> lost ! 0 = rev ! 0 \<and> succ ! 0 = Num 0)
    \<and> ((d ! 0 = Bool True) \<noteq> (r ! 0 = Bool True) \<longrightarrow>
         (\<forall>x. rev ! 0 = Num x \<longrightarrow> (\<exists>a b. succ ! 0 = Num a \<and> lost ! 0 = Num b \<and> a + b = x))))"
proof -
  have h2: "wf_df csv0" by code_simp
  have h3: "0 < nrows csv0" by code_simp
  have h4: "get_col derived0 (u ''success_revenue'') = Inr [Num 1500, Num 900, Num 0]"
    by code_simp
  have h5: "get_col derived0 (u ''lost_revenue'') = Inr [Num 0, Num 900, Num 0]" by code_simp
  from revenue_split_by_flag [OF load_csv0 h2 h3] h2 h3 h4 h5
  show ?thesis by blast
qed

theorem normalize_coerces_bad_timestamps_witness:
  "wf_df csv0
   \<and> get_col csv0 (u ''date_creation'') = Inr [Num 172800000000000, NA, Str (u ''bad'')]
   \<and> get_col csv0 (u ''date_expedition'') = Inr [Num 86400000000001, Num 86400000000000, Num 0]
   \<and> get_col csv0 (u ''date_last_status'') = Inr [Num 432000000000000, Num 86400000000000, NA]
   \<and> u ''Date de commande'' \<notin> set (columns csv0)
   \<and> parse_datetime lib0 [Num 172800000000000, NA, Str (u ''bad'')] 2 = None
   \<and> (\<exists>df4 n1 n4. normalize lib0 csv0 = Inr df4
        \<and> get_col df4 (u ''date_creation'') = Inr n1 \<and> get_col df4 (u ''date_commande'') = Inr n4
        \<and> n1 ! 2 = NA \<and> (\<forall>i<nrows csv0. n4 ! i = NA))"
proof -
  have h1: "wf_df csv0" by code_simp
  have h2: "get_col csv0 (u ''date_creation'') = Inr [Num 172800000000000, NA, Str (u ''bad'')]"
    by code_simp
  have h3: "get_col csv0 (u ''date_expedition'')
      = Inr [Num 86400000000001, Num 86400000000000, Num 0]"
    by code_simp
  have h4: "get_col csv0 (u ''date_last_status'') = Inr [Num 432000000000000, Num 86400000000000, NA]"
    by code_simp
  have h5: "u ''Date de commande'' \<notin> set (columns csv0)" by code_simp
  have h6: "parse_datetime lib0 [Num 172800000000000, NA, Str (u ''bad'')] 2 = None"
    by code_simp
  have h7: "(2::nat) < nrows csv0" by code_simp
  from normalize_coerces_bad_timestamps [OF h1 h2 h3 h4, of lib0] obtain df4 n1 n4 where
    a: "normalize lib0 csv0 = Inr df4" "get_col df4 (u ''date_creation'') = Inr n1"
      "get_col df4 (u ''date_commande'') = Inr n4"
      "\<forall>i<nrows csv0. parse_datetime lib0 [Num 172800000000000, NA, Str (u ''bad'')] i = None
          \<longrightarrow> n1 ! i = NA"
      "u ''Date de commande'' \<notin> set (columns csv0) \<longrightarrow> (\<forall>i<nrows csv0. n4 ! i = NA)"
    by blast
  from a(4) h6 h7 have "n1 ! 2 = NA" by blast
  with a h1 h2 h3 h4 h5 h6 show ?thesis by blast
qed




lemma msgs_distinct:
  "msg_processing \<noteq> msg_shipping" "msg_processing \<noteq> msg_none" "msg_shipping \<noteq> msg_none"
  by (simp_all add: msg_processing_def msg_shipping_def msg_none_def)

lemma insights_eq:
  assumes "get_col df (u ''processing_time_days'') = Inr p"
    and "get_col df (u ''delivery_delay_days'') = Inr d"
    and "series_mean p = Inr m1" and "series_mean d = Inr m2"
  shows "insights df = Inr (insight_rules m1 m2)"
  using assms by (simp add: insights_def)

lemma exceeds_iff: "exceeds m k \<longleftrightarrow> (\<exists>x. m = Some x \<and> k < x)"
  by (cases m) (simp_all add: exceeds_def)

text \<open>
  Claim C7. Given the mean processing time \<open>m1\<close> and the mean delivery delay \<open>m2\<close>, the
  insights are, in this order, the processing advisory exactly when \<open>m1\<close> is defined and
  greater than 1, and then the shipping advisory exactly when \<open>m2\<close> is defined and greater
  than 2; when neither holds, the list is the single text "no major bottlenecks". The
  order is the same whatever the two means are.
\<close>

theorem insights_fixed_order:
  assumes "get_col df (u ''processing_time_days'') = Inr p"
    and "get_col df (u ''delivery_delay_days'') = Inr d"
    and "series_mean p = Inr m1" and "series_mean d = Inr m2"
  shows "\<exists>out. insights df = Inr out
    \<and> out = (if (\<exists>x. m1 = Some x \<and> 1 < x) \<and> (\<exists>y. m2 = Some y \<and> 2 < y)
               then [msg_processing, msg_shipping]
             else if (\<exists>x. m1 = Some x \<and> 1 < x) then [msg_processing]
             else if (\<exists>y. m2 = Some y \<and> 2 < y) then [msg_shipping]
             else [msg_none])
    \<and> (msg_processing \<in> set out \<longleftrightarrow> (\<exists>x. m1 = Some x \<and> 1 < x))
    \<and> (msg_shipping \<in> set out \<longleftrightarrow> (\<exists>y. m2 = Some y \<and> 2 < y))
    \<and> (msg_none \<in> set out \<longleftrightarrow> \<not> (\<exists>x. m1 = Some x \<and> 1 < x) \<and> \<not> (\<exists>y. m2 = Some y \<and> 2 < y))"
proof -
  define P where "P \<longleftrightarrow> (\<exists>x. m1 = Some x \<and> 1 < x)"
  define Q where "Q \<longleftrightarrow> (\<exists>y. m2 = Some y \<and> 2 < y)"
  have e1: "exceeds m1 1 = P" and e2: "exceeds m2 2 = Q"
    by (simp_all add: exceeds_iff P_def Q_def)
  have r: "insight_rules m1 m2 = (if P \<and> Q then [msg_processing, msg_shipping]
      else if P then [msg_processing] else if Q then [msg_shipping] else [msg_none])"
    by (simp add: insight_rules_def e1 e2)
  have "insights df = Inr (insight_rules m1 m2)" using assms by (rule insights_eq)
  then have "\<exists>out. insights df = Inr out
    \<and> out = (if P \<and> Q then [msg_processing, msg_shipping]
             else if P then [msg_processing] else if Q then [msg_shipping] else [msg_none])
    \<and> (msg_processing \<in> set out \<longleftrightarrow> P) \<and> (msg_shipping \<in> set out \<longleftrightarrow> Q)
    \<and> (msg_none \<in> set out \<longleftrightarrow> \<not> P \<and> \<not> Q)"
    unfolding r using msgs_distinct by (cases P; cases Q) simp_all
  then show ?thesis unfolding P_def Q_def .
qed

text \<open>At the thresholds themselves no rule fires: a mean of exactly 1 day and a mean of
  exactly 2 days give the single text "no major bottlenecks".\<close>

lemma insight_rules_at_thresholds:
  "insight_rules (Some 1) (Some 2) = [msg_none]"
  "insight_rules (Some (3 / 2)) (Some 2) = [msg_processing]"
  "insight_rules (Some 1) (Some (5 / 2)) = [msg_shipping]"
  "insight_rules None (Some 3) = [msg_shipping]"
  by (simp_all add: insight_rules_def exceeds_def)

lemma series_mean_all_NA: "list_all (\<lambda>c. c = NA) s \<Longrightarrow> series_mean s = Inr None"
proof -
  assume a: "list_all (\<lambda>c. c = NA) s"
  then have "s = replicate (length s) NA"
    by (induction s) auto
  moreover have "List.map_filter num_of (replicate n NA) = []" for n
    by (induction n) simp_all
  moreover have "\<not> list_ex (\<lambda>c. c \<noteq> NA \<and> num_of c = None) s"
    using a by (auto simp: list_ex_iff list_all_iff)
  ultimately show ?thesis
    by (simp add: series_mean_def Let_def) metis
qed

text \<open>
  Claim C10. When every value of \<^verbatim>\<open>processing_time_days\<close> (of \<^verbatim>\<open>delivery_delay_days\<close>) is
  missing, its mean is undefined and its advisory is not among the insights; when both
  columns are entirely missing the insights are the single text "no major bottlenecks".
\<close>

theorem undefined_mean_fires_no_rule:
  assumes "get_col df (u ''processing_time_days'') = Inr p"
    and "get_col df (u ''delivery_delay_days'') = Inr d"
  shows "(list_all (\<lambda>c. c = NA) p \<longrightarrow> series_mean p = Inr None
            \<and> (\<forall>out. insights df = Inr out \<longrightarrow> msg_processing \<notin> set out))
    \<and> (list_all (\<lambda>c. c = NA) d \<longrightarrow> series_mean d = Inr None
            \<and> (\<forall>out. insights df = Inr out \<longrightarrow> msg_shipping \<notin> set out))
    \<and> (list_all (\<lambda>c. c = NA) p \<and> list_all (\<lambda>c. c = NA) d \<longrightarrow> insights df = Inr [msg_none])"
  using assms msgs_distinct
  by (auto simp: insights_def bind_err_Inr series_mean_all_NA insight_rules_def exceeds_def)

text \<open>In \<open>frame1\<close> the mean processing time is exactly 1 day, so the processing advisory
  is absent, and the mean delivery delay is 5/2 days, so the shipping advisory is
  present.\<close>

theorem insights_fixed_order_witness:
  "get_col frame1 (u ''processing_time_days'') = Inr [Num 1, NA, Num 1]
   \<and> get_col frame1 (u ''delivery_delay_days'') = Inr [Num 2, Num 3, NA]
   \<and> series_mean [Num 1, NA, Num 1] = Inr (Some 1)
   \<and> series_mean [Num 2, Num 3, NA] = Inr (Some (5 / 2))
   \<and> insights frame1 = Inr [msg_shipping]
   \<and> msg_processing \<notin> set [msg_shipping]"
proof -
  have h1: "get_col frame1 (u ''processing_time_days'') = Inr [Num 1, NA, Num 1]"
    by (simp add: frame1_def get_col_def)
  have h2: "get_col frame1 (u ''delivery_delay_days'') = Inr [Num 2, Num 3, NA]"
    by (simp add: frame1_def get_col_def)
  have h3: "series_mean [Num 1, NA, Num 1] = Inr (Some 1)"
    by (simp add: series_mean_def)
  have h4: "series_mean [Num 2, Num 3, NA] = Inr (Some (5 / 2))"
    by (simp add: series_mean_def)
  have n1: "\<not> (\<exists>x::rat. Some 1 = Some x \<and> 1 < x)" by simp
  have p2: "\<exists>y::rat. Some (5 / 2) = Some y \<and> 2 < y" by (rule exI [of _ "5 / 2"]) simp
  from insights_fixed_order [OF h1 h2 h3 h4] obtain out where
    o: "insights frame1 = Inr out" and
    e: "out = (if (\<exists>x::rat. Some 1 = Some x \<and> 1 < x) \<and> (\<exists>y::rat. Some (5 / 2) = Some y \<and> 2 < y)
               then [msg_processing, msg_shipping]
             else if (\<exists>x::rat. Some 1 = Some x \<and> 1 < x) then [msg_processing]
             else if (\<exists>y::rat. Some (5 / 2) = Some y \<and> 2 < y) then [msg_shipping]
             else [msg_none])"
    by blast
  from e n1 p2 have "out = [msg_shipping]" by (simp only: simp_thms if_True if_False)
  with o h1 h2 h3 h4 msgs_distinct show ?thesis by simp
qed

theorem undefined_mean_fires_no_rule_witness:
  "get_col frame2 (u ''processing_time_days'') = Inr [NA, NA]
   \<and> get_col frame2 (u ''delivery_delay_days'') = Inr [NA, NA]
   \<and> list_all (\<lambda>c. c = NA) [NA, NA]
   \<and> insights frame2 = Inr [msg_none]"
proof -
  have h1: "get_col frame2 (u ''processing_time_days'') = Inr [NA, NA]"
    by (simp add: frame2_def get_col_def)
  have h2: "get_col frame2 (u ''delivery_delay_days'') = Inr [NA, NA]"
    by (simp add: frame2_def get_col_def)
  from undefined_mean_fires_no_rule [OF h1 h2] h1 h2 show ?thesis by simp
qed




lemma columns_map [simp]: "columns (map (\<lambda>(k, c). (k, f c)) df) = columns df"
  by (induction df) (auto simp: columns_def)





lemma group_keys_set: "set (group_keys ks) = set ks - {NA}"
  by (auto simp: group_keys_def)

lemma group_keys_distinct: "distinct (group_keys ks)"
  by (simp add: group_keys_def)

lemma count_group:
  "length (filter (\<lambda>c. c \<noteq> NA) (group_rows ks g col))
     = length (filter (\<lambda>(k, v). k = g \<and> v \<noteq> NA) (zip ks col))"
proof -
  have "filter (\<lambda>c. c \<noteq> NA) (map snd ps) = map snd (filter (\<lambda>(k, v). v \<noteq> NA) ps)"
    for ps :: "(cell \<times> cell) list"
    by (induction ps) auto
  then show ?thesis
    by (simp add: group_rows_def case_prod_unfold conj_commute)
qed

lemma sum_group_counts:
  assumes "distinct gs"
  shows "sum_list (map (\<lambda>g. length (filter (\<lambda>(k, v). k = g \<and> Q v) ps)) gs)
     = length (filter (\<lambda>(k, v). k \<in> set gs \<and> Q v) ps)"
  using assms
proof (induction gs)
  case Nil
  then show ?case by simp
next
  case (Cons g gs)
  have "length (filter (\<lambda>(k, v). k \<in> set (g # gs) \<and> Q v) ps)
      = length (filter (\<lambda>(k, v). k = g \<and> Q v) ps) + length (filter (\<lambda>(k, v). k \<in> set gs \<and> Q v) ps)"
    using Cons.prems by (induction ps) auto
  then show ?case using Cons by simp
qed

lemma total_of_counts:
  "sum_list (map (\<lambda>g. length (filter (\<lambda>c. c \<noteq> NA) (group_rows ks g col))) (group_keys ks))
     = length (filter (\<lambda>(k, v). k \<noteq> NA \<and> v \<noteq> NA) (zip ks col))"
proof -
  have "filter (\<lambda>(k, v). k \<in> set (group_keys ks) \<and> v \<noteq> NA) (zip ks col)
      = filter (\<lambda>(k, v). k \<noteq> NA \<and> v \<noteq> NA) (zip ks col)"
    by (rule filter_cong) (auto simp: group_keys_set dest: set_zip_leftD)
  then show ?thesis
    by (simp add: count_group sum_group_counts [OF group_keys_distinct])
qed

lemma wilaya_stats_Inr:
  assumes "wilaya_stats df = Inr out"
  shows "\<exists>ks oid. get_col df (u ''to_wilaya_name'') = Inr ks \<and> get_col df (u ''order_id'') = Inr oid
    \<and> get_col out (u ''to_wilaya_name'') = Inr (group_keys ks)
    \<and> get_col out (u ''orders'') = Inr (map (\<lambda>g. agg_count (group_rows ks g oid)) (group_keys ks))"
  using assms
  by (auto simp: wilaya_stats_def Let_def bind_err_Inr get_col_def)

text \<open>
  Claim C8, as the code has it. In the per-region summary the group keys are the distinct
  destination regions that are present, each once; a record whose region is missing
  belongs to no group, and \<^verbatim>\<open>count\<close> counts the order ids that are present. So the
  counts add up to the number of records that have both a region and an order id, and
  to the total number of records when no region and no order id is missing.
\<close>

theorem group_counts_cover_present_keys:
  assumes "wilaya_stats df = Inr out"
  shows "\<exists>ks oid gs counts. get_col df (u ''to_wilaya_name'') = Inr ks
    \<and> get_col df (u ''order_id'') = Inr oid
    \<and> get_col out (u ''to_wilaya_name'') = Inr gs
    \<and> get_col out (u ''orders'') = Inr (map (\<lambda>n. Num (of_nat n)) counts)
    \<and> length counts = length gs \<and> distinct gs \<and> set gs = set ks - {NA}
    \<and> sum_list counts = length (filter (\<lambda>(k, v). k \<noteq> NA \<and> v \<noteq> NA) (zip ks oid))
    \<and> (length oid = length ks \<and> NA \<notin> set ks \<and> NA \<notin> set oid \<longrightarrow> sum_list counts = length ks)"
proof -
  from wilaya_stats_Inr [OF assms] obtain ks oid where
    k: "get_col df (u ''to_wilaya_name'') = Inr ks" and o: "get_col df (u ''order_id'') = Inr oid"
    and g: "get_col out (u ''to_wilaya_name'') = Inr (group_keys ks)"
    and c: "get_col out (u ''orders'') = Inr (map (\<lambda>g. agg_count (group_rows ks g oid)) (group_keys ks))"
    by blast
  define counts where
    "counts = map (\<lambda>g. length (filter (\<lambda>c. c \<noteq> NA) (group_rows ks g oid))) (group_keys ks)"
  have c': "get_col out (u ''orders'') = Inr (map (\<lambda>n. Num (of_nat n)) counts)"
    using c by (simp add: counts_def agg_count_def comp_def)
  have s: "sum_list counts = length (filter (\<lambda>(k, v). k \<noteq> NA \<and> v \<noteq> NA) (zip ks oid))"
    unfolding counts_def by (rule total_of_counts)
  have f: "length oid = length ks \<and> NA \<notin> set ks \<and> NA \<notin> set oid \<longrightarrow> sum_list counts = length ks"
  proof
    assume a: "length oid = length ks \<and> NA \<notin> set ks \<and> NA \<notin> set oid"
    have "filter (\<lambda>(k, v). k \<noteq> NA \<and> v \<noteq> NA) (zip ks oid) = zip ks oid"
      using a by (auto simp: filter_id_conv dest: set_zip_leftD set_zip_rightD)
    then show "sum_list counts = length ks" using s a by simp
  qed
  show ?thesis
    apply (rule exI [of _ ks], rule exI [of _ oid])
    apply (rule exI [of _ "group_keys ks"], rule exI [of _ counts])
    using k o g c' s f apply (simp add: group_keys_distinct group_keys_set)
    apply (simp add: counts_def)
    done
qed















lemma wilaya_stats_derived0: "wilaya_stats derived0 = Inr stats0"
  by code_simp








text \<open>
  Claim C8 as stated fails. In the table of the sample file, order 3 has no destination
  region and belongs to no group, and order 2, to Oran, has no order id and is not
  counted: the counts of the two groups are 1 and 0, and the table has 3 records.
\<close>

theorem group_counts_miss_records_counterexample:
  "load_data lib0 csv0 = Inr derived0 \<and> nrows derived0 = 3
   \<and> get_col derived0 (u ''to_wilaya_name'') = Inr [Str (u ''Alger''), Str (u ''Oran''), NA]
   \<and> get_col derived0 (u ''order_id'') = Inr [Num 1, NA, Num 3]
   \<and> wilaya_stats derived0 = Inr stats0
   \<and> get_col stats0 (u ''to_wilaya_name'') = Inr [Str (u ''Alger''), Str (u ''Oran'')]
   \<and> get_col stats0 (u ''orders'') = Inr [Num 1, Num 0]
   \<and> sum_list [1, 0] \<noteq> nrows derived0"
proof -
  have "nrows derived0 = 3" by (simp add: derived0_def nrows_def)
  moreover have "get_col derived0 (u ''to_wilaya_name'') = Inr [Str (u ''Alger''), Str (u ''Oran''), NA]"
    by (simp add: derived0_def get_col_def)
  moreover have "get_col derived0 (u ''order_id'') = Inr [Num 1, NA, Num 3]"
    by (simp add: derived0_def get_col_def)
  moreover have "get_col stats0 (u ''to_wilaya_name'') = Inr [Str (u ''Alger''), Str (u ''Oran'')]"
    by (simp add: stats0_def get_col_def)
  moreover have "get_col stats0 (u ''orders'') = Inr [Num 1, Num 0]"
    by (simp add: stats0_def get_col_def)
  ultimately show ?thesis using load_csv0 wilaya_stats_derived0 by simp
qed

theorem group_counts_cover_present_keys_witness:
  "wilaya_stats derived0 = Inr stats0
   \<and> (\<exists>ks oid gs counts. get_col derived0 (u ''to_wilaya_name'') = Inr ks
    \<and> get_col derived0 (u ''order_id'') = Inr oid
    \<and> get_col stats0 (u ''to_wilaya_name'') = Inr gs
    \<and> get_col stats0 (u ''orders'') = Inr (map (\<lambda>n. Num (of_nat n)) counts)
    \<and> length counts = length gs \<and> distinct gs \<and> set gs = set ks - {NA}
    \<and> sum_list counts = length (filter (\<lambda>(k, v). k \<noteq> NA \<and> v \<noteq> NA) (zip ks oid))
    \<and> (length oid = length ks \<and> NA \<notin> set ks \<and> NA \<notin> set oid \<longrightarrow> sum_list counts = length ks))"
  using group_counts_cover_present_keys [OF wilaya_stats_derived0] wilaya_stats_derived0
  by blast

end
